theory Spec2Isabelle
  imports Main "HOL-Library.Word"
begin

section \<open>The smart GDI object handle of nvdaHelper/common/GDIObject.h\<close>

subsection \<open>Handles and the GDI subsystem\<close>

text \<open>
  \<^verbatim>\<open>HGDIOBJ\<close> and \<^verbatim>\<open>HRGN\<close> are pointer types of the Windows headers. A handle is
  modelled by its address, a machine word whose width \<open>'a\<close> is the pointer width of the
  build (32 or 64 bits); \<^verbatim>\<open>nullptr\<close> is the address 0.
\<close>

type_synonym 'a HGDIOBJ = "'a word"
type_synonym 'a HRGN = "'a word"

abbreviation nullptr :: "'a::len word" where
  "nullptr \<equiv> 0"

text \<open>
  The part of the GDI subsystem the class can change: the arguments of every call of
  \<^verbatim>\<open>DeleteObject\<close>, oldest first, and the handles whose object is still allocated.
\<close>

record 'h gdi =
  deleted :: "'h list"
  allocated :: "'h set"

text \<open>
  Modelled from the spec: the release primitive \<^verbatim>\<open>DeleteObject\<close> belongs to the
  Windows API, not to the repository. The spec gives it the contract "release(handle)":
  it deallocates the object the handle names, which makes the handle invalid. The model
  records the call and removes the handle from the allocated ones. Its \<^verbatim>\<open>BOOL\<close> result is
  discarded by the only call in the source, so it is left out.
\<close>

definition DeleteObject :: "'a HGDIOBJ \<Rightarrow> 'a word gdi \<Rightarrow> 'a word gdi" where
  "DeleteObject h g = g\<lparr>deleted := deleted g @ [h], allocated := allocated g - {h}\<rparr>"

text \<open>The calls of \<^verbatim>\<open>DeleteObject\<close> made between an earlier subsystem state and a later one.\<close>

definition calls_since :: "'h gdi \<Rightarrow> 'h gdi \<Rightarrow> 'h list" where
  "calls_since g g' = drop (length (deleted g)) (deleted g')"

subsection \<open>The class\<close>

text \<open>The only data member is \<^verbatim>\<open>HGDIOBJ _hGDIObj {nullptr}\<close>.\<close>

record 'h GDIObject =
  hGDIObj :: 'h

text \<open>
  A member function takes the object it is called on and the subsystem, and returns both
  (after its result, when it has one).
\<close>

type_synonym 'a state = "'a HGDIOBJ GDIObject \<times> 'a HGDIOBJ gdi"

text \<open>\<^verbatim>\<open>GDIObject(HGDIOBJ h=nullptr): _hGDIObj(h) {}\<close>\<close>

definition GDIObject_ctor :: "'a HGDIOBJ \<Rightarrow> 'a HGDIOBJ GDIObject" where
  "GDIObject_ctor h = \<lparr>hGDIObj = h\<rparr>"

definition GDIObject_default :: "'a::len HGDIOBJ GDIObject" where
  "GDIObject_default = GDIObject_ctor nullptr"

text \<open>
  \<^verbatim>\<open>void destroy() { if(_hGDIObj) { DeleteObject(_hGDIObj); _hGDIObj=nullptr; } }\<close>
\<close>

fun destroy :: "'a::len state \<Rightarrow> 'a state" where
  "destroy (this, g) =
     (if hGDIObj this \<noteq> nullptr
      then (let g' = DeleteObject (hGDIObj this) g;
                this' = this\<lparr>hGDIObj := nullptr\<rparr>
            in (this', g'))
      else (this, g))"

text \<open>
  \<^verbatim>\<open>GDIObject& operator=(HGDIOBJ h) { destroy(); _hGDIObj=h; return *this; }\<close>
  The reference it returns is the object itself.
\<close>

fun op_assign :: "'a::len HGDIOBJ \<Rightarrow> 'a state \<Rightarrow> 'a state" where
  "op_assign h (this, g) =
     (case destroy (this, g) of (this', g') \<Rightarrow> (this'\<lparr>hGDIObj := h\<rparr>, g'))"

text \<open>\<^verbatim>\<open>operator HGDIOBJ() { return _hGDIObj; }\<close>\<close>

fun op_HGDIOBJ :: "'a state \<Rightarrow> 'a HGDIOBJ \<times> 'a state" where
  "op_HGDIOBJ (this, g) = (hGDIObj this, (this, g))"

text \<open>
  \<^verbatim>\<open>operator HRGN() { return static_cast<HRGN>(_hGDIObj); }\<close>
  The cast of a \<^verbatim>\<open>void*\<close> to another object pointer type keeps the address.
\<close>

definition static_cast_HRGN :: "'a HGDIOBJ \<Rightarrow> 'a HRGN" where
  "static_cast_HRGN p = p"

fun op_HRGN :: "'a state \<Rightarrow> 'a HRGN \<times> 'a state" where
  "op_HRGN (this, g) = (static_cast_HRGN (hGDIObj this), (this, g))"

text \<open>
  \<^verbatim>\<open>operator bool() { return static_cast<bool>(_hGDIObj); }\<close>
  A pointer converts to \<^verbatim>\<open>true\<close> exactly when it is not null.
\<close>

definition static_cast_bool :: "'a::len HGDIOBJ \<Rightarrow> bool" where
  "static_cast_bool p = (p \<noteq> nullptr)"

fun op_bool :: "'a::len state \<Rightarrow> bool \<times> 'a state" where
  "op_bool (this, g) = (static_cast_bool (hGDIObj this), (this, g))"

text \<open>
  \<^verbatim>\<open>~GDIObject() { destroy(); }\<close>
  The object is gone afterwards; what remains is the subsystem.
\<close>

fun GDIObject_dtor :: "'a::len state \<Rightarrow> 'a HGDIOBJ gdi" where
  "GDIObject_dtor (this, g) = snd (destroy (this, g))"

subsection \<open>Sequences of member calls\<close>

text \<open>
  The public members a caller can invoke on a constructed object. The copy constructor and
  the copy assignment are deleted, and no member takes another \<^verbatim>\<open>GDIObject\<close>, so every
  argument is a raw handle.
\<close>

datatype 'h call = Destroy | Assign 'h | AsHGDIOBJ | AsHRGN | AsBool

fun invoke :: "'a::len HGDIOBJ call \<Rightarrow> 'a state \<Rightarrow> 'a state" where
  "invoke Destroy s = destroy s"
| "invoke (Assign h) s = op_assign h s"
| "invoke AsHGDIOBJ s = snd (op_HGDIOBJ s)"
| "invoke AsHRGN s = snd (op_HRGN s)"
| "invoke AsBool s = snd (op_bool s)"

fun run :: "'a::len HGDIOBJ call list \<Rightarrow> 'a state \<Rightarrow> 'a state" where
  "run [] s = s"
| "run (c # cs) s = run cs (invoke c s)"

text \<open>A whole lifetime: construction from \<open>h\<close>, the calls \<open>cs\<close>, destruction.\<close>

definition lifetime :: "'a::len HGDIOBJ \<Rightarrow> 'a HGDIOBJ call list \<Rightarrow> 'a HGDIOBJ gdi \<Rightarrow> 'a HGDIOBJ gdi" where
  "lifetime h cs g = GDIObject_dtor (run cs (GDIObject_ctor h, g))"

text \<open>A call that hands the object no handle: anything but the assignment of a non-null one.\<close>

fun adopts_nothing :: "'a::len HGDIOBJ call \<Rightarrow> bool" where
  "adopts_nothing (Assign h) = (h = nullptr)"
| "adopts_nothing _ = True"

text \<open>The object of the owned handle, when there is one, is still allocated.\<close>

definition owned_allocated :: "'a::len state \<Rightarrow> bool" where
  "owned_allocated s = (hGDIObj (fst s) = nullptr \<or> hGDIObj (fst s) \<in> allocated (snd s))"

text \<open>
  What a caller who transfers ownership hands to an assignment: null, or the handle of an
  allocated object that the object does not already own.
\<close>

fun transfers :: "'a::len HGDIOBJ call list \<Rightarrow> 'a state \<Rightarrow> bool" where
  "transfers [] s = True"
| "transfers (Assign h # cs) s =
     ((h = nullptr \<or> (h \<in> allocated (snd s) \<and> h \<noteq> hGDIObj (fst s)))
      \<and> transfers cs (op_assign h s))"
| "transfers (c # cs) s = transfers cs (invoke c s)"

subsection \<open>Two objects\<close>

text \<open>
  A program over two objects, \<open>src\<close> and \<open>dst\<close>, on one subsystem: each statement is a
  member call on one of them. A handle read from one object and assigned to the other is
  an \<open>Assign\<close> with that handle.
\<close>

datatype 'h stmt = OnSrc "'h call" | OnDst "'h call"

type_synonym 'a state2 = "'a HGDIOBJ GDIObject \<times> 'a HGDIOBJ GDIObject \<times> 'a HGDIOBJ gdi"

fun exec :: "'a::len HGDIOBJ stmt \<Rightarrow> 'a state2 \<Rightarrow> 'a state2" where
  "exec (OnSrc c) (src, dst, g) = (case invoke c (src, g) of (src', g') \<Rightarrow> (src', dst, g'))"
| "exec (OnDst c) (src, dst, g) = (case invoke c (dst, g) of (dst', g') \<Rightarrow> (src, dst', g'))"

fun execs :: "'a::len HGDIOBJ stmt list \<Rightarrow> 'a state2 \<Rightarrow> 'a state2" where
  "execs [] t = t"
| "execs (x # xs) t = execs xs (exec x t)"

text \<open>
  Either \<open>src\<close> still holds \<open>h\<close>, or \<^verbatim>\<open>DeleteObject\<close> has been called on \<open>h\<close> and its object
  is no longer allocated.
\<close>

definition held_or_released :: "'a::len HGDIOBJ \<Rightarrow> 'a state2 \<Rightarrow> bool" where
  "held_or_released h t =
     (case t of (src, dst, g) \<Rightarrow> hGDIObj src = h \<or> (h \<notin> allocated g \<and> h \<in> set (deleted g)))"

subsection \<open>The operations as the specification words them\<close>

text \<open>
  \<open>release()\<close>: "if an owned handle is present, invokes the external release primitive on
  it, then clears the owned value to null".
\<close>

definition release_spec :: "'a::len state \<Rightarrow> 'a state" where
  "release_spec s =
     (case s of (w, g) \<Rightarrow>
        if hGDIObj w = nullptr then (w, g)
        else (w\<lparr>hGDIObj := nullptr\<rparr>, DeleteObject (hGDIObj w) g))"

text \<open>"adopting \<open>newHandle\<close> as the new owned value".\<close>

definition adopt_spec :: "'a HGDIOBJ \<Rightarrow> 'a state \<Rightarrow> 'a state" where
  "adopt_spec newHandle s = (case s of (w, g) \<Rightarrow> (w\<lparr>hGDIObj := newHandle\<rparr>, g))"

text \<open>\<open>assign(newHandle)\<close>: "\<open>release()\<close> followed by adopting \<open>newHandle\<close>".\<close>

definition assign_spec :: "'a::len HGDIOBJ \<Rightarrow> 'a state \<Rightarrow> 'a state" where
  "assign_spec newHandle s = adopt_spec newHandle (release_spec s)"

section \<open>Properties\<close>

subsection \<open>Basic facts\<close>

lemma calls_since_self: "calls_since g g = []"
  by (simp add: calls_since_def)

lemma calls_since_DeleteObject: "calls_since g (DeleteObject h g) = [h]"
  by (simp add: calls_since_def DeleteObject_def)

lemma deleted_DeleteObject: "deleted (DeleteObject h g) = deleted g @ [h]"
  by (simp add: DeleteObject_def)

lemma allocated_DeleteObject: "allocated (DeleteObject h g) = allocated g - {h}"
  by (simp add: DeleteObject_def)

lemma destroy_owned:
  "hGDIObj this \<noteq> 0 \<Longrightarrow>
     destroy (this, g) = (this\<lparr>hGDIObj := 0\<rparr>, DeleteObject (hGDIObj this) g)"
  by simp

lemma destroy_empty: "hGDIObj this = 0 \<Longrightarrow> destroy (this, g) = (this, g)"
  by simp

lemma destroy_clears: "hGDIObj (fst (destroy s)) = 0"
  by (cases s) simp

lemma destroy_log:
  "\<exists>xs. deleted (snd (destroy s)) = deleted (snd s) @ xs \<and> nullptr \<notin> set xs"
  by (cases s) (simp add: deleted_DeleteObject)

lemma destroy_shrinks:
  "allocated (snd (destroy s)) \<subseteq> allocated (snd s)
   \<and> set (deleted (snd s)) \<subseteq> set (deleted (snd (destroy s)))"
  by (cases s) (auto simp: allocated_DeleteObject deleted_DeleteObject)

lemma op_assign_subsystem: "snd (op_assign h s) = snd (destroy s)"
  by (cases s) (simp split: prod.splits)

subsection \<open>Construction followed by destruction\<close>

text \<open>
  C1. For every handle \<open>h\<close>, constructing a wrapper with \<open>h\<close> and destroying it with no
  operation in between calls \<^verbatim>\<open>DeleteObject\<close> exactly once, with argument \<open>h\<close>, when \<open>h\<close>
  is not null, and not at all when \<open>h\<close> is null.
\<close>

theorem construct_destroy_calls:
  "deleted (GDIObject_dtor (GDIObject_ctor h, g)) = deleted g @ (if h = nullptr then [] else [h])"
  by (simp add: GDIObject_ctor_def deleted_DeleteObject)

theorem construct_destroy_calls_witness:
  "deleted (GDIObject_dtor (GDIObject_ctor (42 :: 64 word), \<lparr>deleted = [7], allocated = {42}\<rparr>))
     = [7, 42]
   \<and> deleted (GDIObject_dtor (GDIObject_ctor (0 :: 64 word), \<lparr>deleted = [7], allocated = {42}\<rparr>))
     = [7]"
  using construct_destroy_calls [of "42 :: 64 word" "\<lparr>deleted = [7], allocated = {42}\<rparr>"]
    construct_destroy_calls [of "0 :: 64 word" "\<lparr>deleted = [7], allocated = {42}\<rparr>"]
  by simp

subsection \<open>Assignment of a raw handle\<close>

text \<open>
  C2, as stated, asks that assigning \<open>h2\<close> to a wrapper that owns \<open>h1\<close> makes no call of
  \<^verbatim>\<open>DeleteObject\<close> with argument \<open>h2\<close>, for every \<open>h2\<close>. When \<open>h2\<close> is \<open>h1\<close> itself the one
  call that releases \<open>h1\<close> is a call with argument \<open>h2\<close>: here a wrapper that owns 42 is
  assigned 42.
\<close>

theorem assign_same_handle_releases_it:
  "hGDIObj (GDIObject_ctor (42 :: 64 word)) = 42 \<and> (42 :: 64 word) \<noteq> nullptr
   \<and> calls_since \<lparr>deleted = [], allocated = {42}\<rparr>
        (snd (op_assign 42 (GDIObject_ctor 42, \<lparr>deleted = [], allocated = {42 :: 64 word}\<rparr>))) = [42]
   \<and> (42 :: 64 word) \<in> set (calls_since \<lparr>deleted = [], allocated = {42}\<rparr>
        (snd (op_assign 42 (GDIObject_ctor 42, \<lparr>deleted = [], allocated = {42 :: 64 word}\<rparr>))))"
  by (simp add: GDIObject_ctor_def DeleteObject_def calls_since_def)

text \<open>
  C2, amended. For every wrapper that owns a non-null handle \<open>h1\<close> and every handle \<open>h2\<close>
  other than \<open>h1\<close>, the assignment of \<open>h2\<close> calls \<^verbatim>\<open>DeleteObject\<close> exactly once, with
  argument \<open>h1\<close>; the call is made by \<open>destroy\<close>, which leaves the wrapper empty, and \<open>h2\<close>
  is stored in the state \<open>destroy\<close> returns, so the release comes first; no call is made
  with argument \<open>h2\<close>; afterwards the wrapper owns \<open>h2\<close>.
\<close>

theorem assign_releases_old:
  assumes "hGDIObj this = h1" and "h1 \<noteq> nullptr" and "h2 \<noteq> h1"
  shows "destroy (this, g) = (this\<lparr>hGDIObj := nullptr\<rparr>, DeleteObject h1 g)
    \<and> deleted (DeleteObject h1 g) = deleted g @ [h1]
    \<and> op_assign h2 (this, g) = (this\<lparr>hGDIObj := h2\<rparr>, DeleteObject h1 g)
    \<and> calls_since g (snd (op_assign h2 (this, g))) = [h1]
    \<and> h2 \<notin> set (calls_since g (snd (op_assign h2 (this, g))))
    \<and> hGDIObj (fst (op_assign h2 (this, g))) = h2"
  using assms by (simp add: deleted_DeleteObject calls_since_DeleteObject)

theorem assign_releases_old_witness:
  "hGDIObj (GDIObject_ctor (42 :: 64 word)) = 42 \<and> (42 :: 64 word) \<noteq> nullptr
   \<and> (43 :: 64 word) \<noteq> 42
   \<and> destroy (GDIObject_ctor 42, \<lparr>deleted = [], allocated = {42, 43}\<rparr>)
       = (GDIObject_ctor nullptr, \<lparr>deleted = [42 :: 64 word], allocated = {43}\<rparr>)
   \<and> op_assign 43 (GDIObject_ctor 42, \<lparr>deleted = [], allocated = {42, 43}\<rparr>)
       = (GDIObject_ctor 43, \<lparr>deleted = [42 :: 64 word], allocated = {43}\<rparr>)"
  using assign_releases_old [of "GDIObject_ctor (42 :: 64 word)" 42 43
      "\<lparr>deleted = [], allocated = {42, 43}\<rparr>"]
  by (simp add: GDIObject_ctor_def DeleteObject_def)

text \<open>
  C6. For every wrapper state and every handle \<open>newHandle\<close>, the assignment is \<open>release()\<close>
  followed by the adoption of \<open>newHandle\<close>, as the specification words them: the same final
  state, hence the same owned value and the same sequence of \<^verbatim>\<open>DeleteObject\<close> calls. The
  specification's \<open>release()\<close> is the source's \<open>destroy\<close>.
\<close>

theorem assign_refines_spec:
  "op_assign newHandle s = assign_spec newHandle s
   \<and> op_assign newHandle s = adopt_spec newHandle (destroy s)
   \<and> destroy s = release_spec s
   \<and> hGDIObj (fst (op_assign newHandle s)) = hGDIObj (fst (assign_spec newHandle s))
   \<and> deleted (snd (op_assign newHandle s)) = deleted (snd (assign_spec newHandle s))"
  by (cases s) (simp add: assign_spec_def adopt_spec_def release_spec_def)

subsection \<open>Release\<close>

text \<open>
  C3. \<open>release()\<close>, the source's \<open>destroy\<close>, is idempotent: a second call in succession
  changes nothing and calls \<^verbatim>\<open>DeleteObject\<close> no more, so two calls make at most one call of
  it; and on a wrapper that owns no handle \<open>destroy\<close> changes nothing and makes no call.
\<close>

theorem destroy_idempotent:
  "destroy (destroy (this, g)) = destroy (this, g)
   \<and> deleted (snd (destroy (destroy (this, g))))
       = deleted g @ (if hGDIObj this = nullptr then [] else [hGDIObj this])
   \<and> length (calls_since g (snd (destroy (destroy (this, g))))) \<le> 1
   \<and> calls_since (snd (destroy (this, g))) (snd (destroy (destroy (this, g)))) = []
   \<and> (hGDIObj this = nullptr \<longrightarrow>
        destroy (this, g) = (this, g) \<and> calls_since g (snd (destroy (this, g))) = [])"
  by (simp add: deleted_DeleteObject calls_since_DeleteObject calls_since_self)

theorem destroy_idempotent_witness:
  "destroy (destroy (GDIObject_ctor (42 :: 64 word), \<lparr>deleted = [], allocated = {42}\<rparr>))
     = (GDIObject_ctor nullptr, \<lparr>deleted = [42], allocated = {}\<rparr>)
   \<and> hGDIObj (GDIObject_default :: 64 word GDIObject) = nullptr
   \<and> destroy (GDIObject_default, \<lparr>deleted = [], allocated = {42 :: 64 word}\<rparr>)
     = (GDIObject_default, \<lparr>deleted = [], allocated = {42}\<rparr>)"
  using destroy_idempotent [of "GDIObject_ctor (42 :: 64 word)" "\<lparr>deleted = [], allocated = {42}\<rparr>"]
    destroy_idempotent [of "GDIObject_default :: 64 word GDIObject"
      "\<lparr>deleted = [], allocated = {42}\<rparr>"]
  by (simp add: GDIObject_ctor_def GDIObject_default_def DeleteObject_def)

subsection \<open>The conversions\<close>

text \<open>
  C8. \<open>isValid()\<close>, the conversion to \<^verbatim>\<open>bool\<close>, returns false exactly when the owned value
  is null and true exactly when it is not; it is false for a default-constructed wrapper
  and right after \<open>destroy\<close>; and it returns the wrapper and the subsystem as it found them.
\<close>

theorem bool_conversion:
  "fst (op_bool s) = (hGDIObj (fst s) \<noteq> nullptr)
   \<and> snd (op_bool s) = s
   \<and> \<not> fst (op_bool (GDIObject_default, g))
   \<and> \<not> fst (op_bool (destroy s))"
  by (cases s) (simp add: static_cast_bool_def GDIObject_default_def GDIObject_ctor_def)

text \<open>
  C9. \<open>asRawHandle()\<close>, the conversion to \<^verbatim>\<open>HGDIOBJ\<close>, returns the owned value (null when
  none is owned) and returns the wrapper and the subsystem as it found them. For a wrapper
  constructed with handle 42, on a 64-bit and on a 32-bit build: the conversion returns 42
  and the conversion to \<^verbatim>\<open>bool\<close> true; \<open>destroy\<close> then calls \<^verbatim>\<open>DeleteObject\<close> with 42, after
  which the conversion to \<^verbatim>\<open>bool\<close> returns false and the conversion to \<^verbatim>\<open>HGDIOBJ\<close> null.
\<close>

theorem raw_conversion:
  "fst (op_HGDIOBJ s) = hGDIObj (fst s)
   \<and> snd (op_HGDIOBJ s) = s
   \<and> fst (op_HGDIOBJ (GDIObject_default, g0)) = nullptr
   \<and> fst (op_HGDIOBJ (GDIObject_ctor (42 :: 64 word), g)) = 42
   \<and> fst (op_bool (GDIObject_ctor (42 :: 64 word), g))
   \<and> deleted (snd (destroy (GDIObject_ctor (42 :: 64 word), g))) = deleted g @ [42]
   \<and> \<not> fst (op_bool (destroy (GDIObject_ctor (42 :: 64 word), g)))
   \<and> fst (op_HGDIOBJ (destroy (GDIObject_ctor (42 :: 64 word), g))) = nullptr
   \<and> fst (op_HGDIOBJ (GDIObject_ctor (42 :: 32 word), g')) = 42
   \<and> fst (op_bool (GDIObject_ctor (42 :: 32 word), g'))
   \<and> deleted (snd (destroy (GDIObject_ctor (42 :: 32 word), g'))) = deleted g' @ [42]
   \<and> \<not> fst (op_bool (destroy (GDIObject_ctor (42 :: 32 word), g')))
   \<and> fst (op_HGDIOBJ (destroy (GDIObject_ctor (42 :: 32 word), g'))) = nullptr"
  by (cases s)
    (simp add: static_cast_bool_def GDIObject_ctor_def GDIObject_default_def deleted_DeleteObject)

text \<open>
  C10. \<open>asTypedAlias()\<close>, the conversion to \<^verbatim>\<open>HRGN\<close>, returns the same handle value as the
  conversion to \<^verbatim>\<open>HGDIOBJ\<close>, the owned one; it is null when no handle is owned (a
  default-constructed wrapper, or any wrapper after \<open>destroy\<close>); and it returns the wrapper
  and the subsystem as it found them.
\<close>

theorem region_conversion:
  "fst (op_HRGN s) = fst (op_HGDIOBJ s)
   \<and> fst (op_HRGN s) = hGDIObj (fst s)
   \<and> snd (op_HRGN s) = s
   \<and> fst (op_HRGN (GDIObject_default, g)) = nullptr
   \<and> fst (op_HRGN (destroy s)) = nullptr"
  by (cases s) (simp add: static_cast_HRGN_def GDIObject_default_def GDIObject_ctor_def)

subsection \<open>No call with a null argument\<close>

lemma invoke_log:
  "\<exists>xs. deleted (snd (invoke c s)) = deleted (snd s) @ xs \<and> nullptr \<notin> set xs"
proof (cases c)
  case Destroy
  then show ?thesis using destroy_log [of s] by simp
next
  case (Assign h)
  then show ?thesis using destroy_log [of s] by (simp add: op_assign_subsystem)
next
  case AsHGDIOBJ
  then show ?thesis by (cases s) simp
next
  case AsHRGN
  then show ?thesis by (cases s) simp
next
  case AsBool
  then show ?thesis by (cases s) simp
qed

lemma run_log:
  "\<exists>xs. deleted (snd (run cs s)) = deleted (snd s) @ xs \<and> nullptr \<notin> set xs"
proof (induction cs arbitrary: s)
  case Nil
  then show ?case by simp
next
  case (Cons c cs)
  obtain xs where xs: "deleted (snd (invoke c s)) = deleted (snd s) @ xs" "nullptr \<notin> set xs"
    using invoke_log by blast
  obtain ys where ys: "deleted (snd (run cs (invoke c s))) = deleted (snd (invoke c s)) @ ys"
      "nullptr \<notin> set ys"
    using Cons.IH by blast
  have "deleted (snd (run (c # cs) s)) = deleted (snd s) @ (xs @ ys)"
    using xs ys by simp
  moreover have "nullptr \<notin> set (xs @ ys)"
    using xs ys by simp
  ultimately show ?case by blast
qed

lemma lifetime_log:
  "\<exists>xs. deleted (lifetime h cs g) = deleted g @ xs \<and> nullptr \<notin> set xs"
proof -
  define s where "s = run cs (GDIObject_ctor h, g)"
  obtain xs where xs: "deleted (snd s) = deleted g @ xs" "nullptr \<notin> set xs"
    using run_log [of cs "(GDIObject_ctor h, g)"] by (auto simp: s_def)
  obtain ys where ys: "deleted (snd (destroy s)) = deleted (snd s) @ ys" "nullptr \<notin> set ys"
    using destroy_log by blast
  have "lifetime h cs g = snd (destroy s)"
    by (cases s) (simp add: lifetime_def s_def)
  then have "deleted (lifetime h cs g) = deleted g @ (xs @ ys)"
    using xs ys by simp
  moreover have "nullptr \<notin> set (xs @ ys)"
    using xs ys by simp
  ultimately show ?thesis by blast
qed

lemma invoke_empty:
  "hGDIObj this = nullptr \<Longrightarrow> adopts_nothing c \<Longrightarrow> invoke c (this, g) = (this, g)"
  by (cases c) simp_all

lemma run_empty:
  "hGDIObj this = nullptr \<Longrightarrow> list_all adopts_nothing cs \<Longrightarrow> run cs (this, g) = (this, g)"
  by (induction cs) (simp_all add: invoke_empty)

text \<open>
  C7. Over a whole lifetime (construction from any handle, any sequence of member calls,
  destruction) the wrapper never calls \<^verbatim>\<open>DeleteObject\<close> with a null argument: the calls it
  makes extend the log, and none of them is null. In particular a default-constructed
  wrapper makes no call when it is destroyed, and none over a lifetime in which it is
  handed no handle (every assignment, if any, is of null): the subsystem is left as found.
\<close>

theorem never_deletes_null:
  "deleted (lifetime h cs g) = deleted g @ calls_since g (lifetime h cs g)
   \<and> nullptr \<notin> set (calls_since g (lifetime h cs g))
   \<and> GDIObject_dtor (GDIObject_default, g) = g
   \<and> (list_all adopts_nothing cs \<longrightarrow>
        GDIObject_dtor (run cs (GDIObject_default, g)) = g
        \<and> calls_since g (GDIObject_dtor (run cs (GDIObject_default, g))) = [])"
proof -
  obtain xs where xs: "deleted (lifetime h cs g) = deleted g @ xs" "nullptr \<notin> set xs"
    using lifetime_log by blast
  then have "calls_since g (lifetime h cs g) = xs"
    by (simp add: calls_since_def)
  with xs have a: "deleted (lifetime h cs g) = deleted g @ calls_since g (lifetime h cs g)"
    and b: "nullptr \<notin> set (calls_since g (lifetime h cs g))" by simp_all
  have c: "GDIObject_dtor (GDIObject_default, g) = g"
    by (simp add: GDIObject_default_def GDIObject_ctor_def)
  have d: "GDIObject_dtor (run cs (GDIObject_default, g)) = g" if "list_all adopts_nothing cs"
    using run_empty [OF _ that, of GDIObject_default g]
    by (simp add: GDIObject_default_def GDIObject_ctor_def)
  show ?thesis using a b c d by (simp add: calls_since_self)
qed

theorem never_deletes_null_witness:
  "list_all adopts_nothing [AsBool, Destroy, Assign (nullptr :: 64 word), AsHGDIOBJ, AsHRGN]
   \<and> GDIObject_dtor (run [AsBool, Destroy, Assign (nullptr :: 64 word), AsHGDIOBJ, AsHRGN]
        (GDIObject_default, \<lparr>deleted = [7], allocated = {42}\<rparr>))
      = \<lparr>deleted = [7], allocated = {42}\<rparr>
   \<and> calls_since \<lparr>deleted = [7], allocated = {42, 43}\<rparr>
        (lifetime nullptr [AsBool, Assign 42, Assign (nullptr :: 64 word), Assign 43]
           \<lparr>deleted = [7], allocated = {42, 43}\<rparr>) = [42, 43]"
  using never_deletes_null [of "nullptr :: 64 word"
      "[AsBool, Destroy, Assign nullptr, AsHGDIOBJ, AsHRGN]" "\<lparr>deleted = [7], allocated = {42}\<rparr>"]
  by (simp add: lifetime_def GDIObject_ctor_def DeleteObject_def calls_since_def)

subsection \<open>The owned handle and its object\<close>

lemma owned_allocated_destroy: "owned_allocated (destroy s)"
  by (simp add: owned_allocated_def destroy_clears)

lemma owned_allocated_assign:
  assumes "h = nullptr \<or> (h \<in> allocated (snd s) \<and> h \<noteq> hGDIObj (fst s))"
  shows "owned_allocated (op_assign h s)"
  using assms by (cases s) (auto simp: owned_allocated_def allocated_DeleteObject)

lemma owned_allocated_invoke:
  assumes "owned_allocated s" and "transfers [c] s"
  shows "owned_allocated (invoke c s)"
proof (cases c)
  case Destroy
  then show ?thesis by (simp add: owned_allocated_destroy)
next
  case (Assign h)
  then show ?thesis using assms(2) by (simp add: owned_allocated_assign)
next
  case AsHGDIOBJ
  then show ?thesis using assms(1) by (cases s) simp
next
  case AsHRGN
  then show ?thesis using assms(1) by (cases s) simp
next
  case AsBool
  then show ?thesis using assms(1) by (cases s) simp
qed

lemma transfers_Cons: "transfers (c # cs) s = (transfers [c] s \<and> transfers cs (invoke c s))"
  by (cases c) simp_all

text \<open>
  As long as every assignment is handed null or the handle of an allocated object other
  than the owned one, the object of the owned handle stays allocated.
\<close>

lemma owned_allocated_run:
  "owned_allocated s \<Longrightarrow> transfers cs s \<Longrightarrow> owned_allocated (run cs s)"
proof (induction cs arbitrary: s)
  case Nil
  then show ?case by simp
next
  case (Cons c cs)
  from Cons.prems(2) have t: "transfers [c] s" "transfers cs (invoke c s)"
    using transfers_Cons [of c cs s] by simp_all
  have "owned_allocated (invoke c s)"
    using Cons.prems(1) t(1) by (rule owned_allocated_invoke)
  then have "owned_allocated (run cs (invoke c s))"
    using t(2) by (rule Cons.IH)
  then show ?case by simp
qed

text \<open>
  C4. The claim: after every sequence of operations, a non-null owned handle has not been
  released since the wrapper adopted it (its object is still allocated), also after the
  assignment of the handle the wrapper already owns. The source at that input: a wrapper
  owns 42, whose object is allocated, and is assigned 42. \<open>destroy\<close> calls \<^verbatim>\<open>DeleteObject\<close>
  on 42 and clears the member, then the assignment stores 42 again: the wrapper owns a
  handle whose object has been released.
\<close>

theorem self_assignment_dangles:
  "owned_allocated (GDIObject_ctor (42 :: 64 word), \<lparr>deleted = [], allocated = {42}\<rparr>)
   \<and> op_assign 42 (GDIObject_ctor (42 :: 64 word), \<lparr>deleted = [], allocated = {42}\<rparr>)
       = (GDIObject_ctor 42, \<lparr>deleted = [42], allocated = {}\<rparr>)
   \<and> \<not> owned_allocated
         (run [Assign 42] (GDIObject_ctor (42 :: 64 word), \<lparr>deleted = [], allocated = {42}\<rparr>))"
  by (simp add: owned_allocated_def GDIObject_ctor_def DeleteObject_def)

subsection \<open>No transfer of ownership between wrappers\<close>

lemma invoke_shrinks:
  "allocated (snd (invoke c s)) \<subseteq> allocated (snd s)
   \<and> set (deleted (snd s)) \<subseteq> set (deleted (snd (invoke c s)))"
proof (cases c)
  case Destroy
  then show ?thesis using destroy_shrinks [of s] by simp
next
  case (Assign h)
  then show ?thesis using destroy_shrinks [of s] by (simp add: op_assign_subsystem)
next
  case AsHGDIOBJ
  then show ?thesis by (cases s) simp
next
  case AsHRGN
  then show ?thesis by (cases s) simp
next
  case AsBool
  then show ?thesis by (cases s) simp
qed

lemma invoke_held_or_released:
  assumes "h \<noteq> nullptr" and "hGDIObj src = h \<or> (h \<notin> allocated g \<and> h \<in> set (deleted g))"
    and "invoke c (src, g) = (src', g')"
  shows "hGDIObj src' = h \<or> (h \<notin> allocated g' \<and> h \<in> set (deleted g'))"
  using assms
  by (cases c) (auto simp: allocated_DeleteObject deleted_DeleteObject split: if_splits)

lemma exec_held_or_released:
  assumes "h \<noteq> nullptr" and "held_or_released h t"
  shows "held_or_released h (exec x t)"
proof -
  obtain src dst g where t: "t = (src, dst, g)" by (cases t)
  show ?thesis
  proof (cases x)
    case (OnSrc c)
    obtain src' g' where c: "invoke c (src, g) = (src', g')" by (cases "invoke c (src, g)")
    then show ?thesis
      using invoke_held_or_released [OF assms(1) _ c] assms(2)
      by (simp add: held_or_released_def t OnSrc)
  next
    case (OnDst c)
    obtain dst' g' where c: "invoke c (dst, g) = (dst', g')" by (cases "invoke c (dst, g)")
    then show ?thesis
      using invoke_shrinks [of c "(dst, g)"] assms(2)
      by (auto simp: held_or_released_def t OnDst)
  qed
qed

lemma execs_held_or_released:
  "h \<noteq> nullptr \<Longrightarrow> held_or_released h t \<Longrightarrow> held_or_released h (execs p t)"
  by (induction p arbitrary: t) (simp_all add: exec_held_or_released)

text \<open>
  C5, as stated, says that a move operation exists: one that empties the source wrapper
  and makes the destination own the handle while its object lives. The class declares no
  such member (its copy members are deleted, which also keeps the compiler from declaring
  move members), and no sequence of member calls on two wrappers does it: from a source
  that owns 42 and an empty destination, no program ends with the source empty, the
  destination holding 42 and the object of 42 still allocated.
\<close>

theorem no_move_operation:
  "\<not> (\<exists>p src' dst' g'.
        execs p (GDIObject_ctor (42 :: 64 word), GDIObject_default,
                 \<lparr>deleted = [], allocated = {42}\<rparr>) = (src', dst', g')
        \<and> hGDIObj src' = nullptr \<and> hGDIObj dst' = 42 \<and> 42 \<in> allocated g')"
proof
  assume "\<exists>p src' dst' g'.
        execs p (GDIObject_ctor (42 :: 64 word), GDIObject_default,
                 \<lparr>deleted = [], allocated = {42}\<rparr>) = (src', dst', g')
        \<and> hGDIObj src' = nullptr \<and> hGDIObj dst' = 42 \<and> 42 \<in> allocated g'"
  then obtain p src' dst' g' where
    e: "execs p (GDIObject_ctor (42 :: 64 word), GDIObject_default,
                 \<lparr>deleted = [], allocated = {42}\<rparr>) = (src', dst', g')"
    and r: "hGDIObj src' = nullptr" "42 \<in> allocated g'"
    by blast
  have "held_or_released 42
      (GDIObject_ctor (42 :: 64 word), GDIObject_default, \<lparr>deleted = [], allocated = {42}\<rparr>)"
    by (simp add: held_or_released_def GDIObject_ctor_def)
  then have "held_or_released 42 (src', dst', g')"
    using execs_held_or_released [of "42 :: 64 word" _ p] e by fastforce
  with r show False by (simp add: held_or_released_def)
qed

text \<open>
  C5, amended. The wrapper is non-duplicable (no member takes another wrapper: every
  argument of a member call is a raw handle) and it has no operation that transfers
  ownership: whenever a sequence of member calls on two wrappers leaves the source without
  the non-null handle \<open>h\<close> it owned, \<^verbatim>\<open>DeleteObject\<close> has been called on \<open>h\<close> and the object of
  \<open>h\<close> is no longer allocated, whatever the destination holds.
\<close>

theorem giving_up_releases:
  assumes "h \<noteq> nullptr" and "hGDIObj src = h"
    and "execs p (src, dst, g) = (src', dst', g')" and "hGDIObj src' \<noteq> h"
  shows "h \<in> set (deleted g') \<and> h \<notin> allocated g'"
  using execs_held_or_released [OF assms(1), of "(src, dst, g)" p] assms(2-4)
  by (simp add: held_or_released_def)

theorem giving_up_releases_witness:
  "(42 :: 64 word) \<noteq> nullptr \<and> hGDIObj (GDIObject_ctor (42 :: 64 word)) = 42
   \<and> execs [OnDst (Assign 42), OnSrc Destroy]
        (GDIObject_ctor (42 :: 64 word), GDIObject_default, \<lparr>deleted = [], allocated = {42}\<rparr>)
      = (GDIObject_ctor nullptr, GDIObject_ctor 42, \<lparr>deleted = [42], allocated = {}\<rparr>)
   \<and> hGDIObj (GDIObject_ctor (nullptr :: 64 word)) \<noteq> 42
   \<and> (42 :: 64 word) \<in> set (deleted \<lparr>deleted = [42 :: 64 word], allocated = {}\<rparr>)
   \<and> (42 :: 64 word) \<notin> allocated \<lparr>deleted = [42 :: 64 word], allocated = {}\<rparr>"
proof -
  have e: "execs [OnDst (Assign 42), OnSrc Destroy]
        (GDIObject_ctor (42 :: 64 word), GDIObject_default, \<lparr>deleted = [], allocated = {42}\<rparr>)
      = (GDIObject_ctor nullptr, GDIObject_ctor 42, \<lparr>deleted = [42], allocated = {}\<rparr>)"
    by (simp add: GDIObject_ctor_def GDIObject_default_def DeleteObject_def)
  have "(42 :: 64 word) \<in> set (deleted \<lparr>deleted = [42 :: 64 word], allocated = {}\<rparr>)
      \<and> (42 :: 64 word) \<notin> allocated \<lparr>deleted = [42 :: 64 word], allocated = {}\<rparr>"
    by (rule giving_up_releases [OF _ _ e]) (simp_all add: GDIObject_ctor_def)
  with e show ?thesis by (simp add: GDIObject_ctor_def)
qed

end
